theory Spec2Isabelle
  imports Main "HOL-Library.Word"
begin

unbundle bit_operations_syntax

section \<open>recoversb.c: clearing the read-only flag of a mounted ext4 super block\<close>

text \<open>
  The module keeps one global, \<^verbatim>\<open>static char clear_device[64]\<close>, walks the kernel's
  list of super blocks and clears \<^verbatim>\<open>MS_RDONLY\<close> in the \<^verbatim>\<open>s_flags\<close> of the first ext4
  super block whose disk name equals the requested device name.

  Bytes are \<^typ>\<open>char\<close> (8 bits). A \<^verbatim>\<open>char\<close> array is the list of its bytes; the C
  string it holds is the part before the first NUL byte.
\<close>

subsection \<open>C strings\<close>

abbreviation NUL :: char where
  "NUL \<equiv> CHR 0x00"

abbreviation LF :: char where
  "LF \<equiv> CHR 0x0A"

abbreviation CR :: char where
  "CR \<equiv> CHR 0x0D"

text \<open>The string a \<^verbatim>\<open>char *\<close> denotes: the bytes before the first NUL. A list that holds
  no NUL stands for an array whose terminator comes right after the listed bytes.\<close>

definition c_str :: "string \<Rightarrow> string" where
  "c_str a = takeWhile (\<lambda>c. c \<noteq> NUL) a"

text \<open>
  \<^verbatim>\<open>strcmp\<close> of the kernel (lib/string.c): the bytes are compared as unsigned chars
  up to the first difference or the terminator; the result is -1, 0 or 1. Reading past
  the end of a list reads the terminator.
\<close>

fun strcmp :: "string \<Rightarrow> string \<Rightarrow> int" where
  "strcmp [] [] = 0"
| "strcmp [] (c2 # ct) = (if c2 = NUL then 0 else - 1)"
| "strcmp (c1 # cs) [] = (if c1 = NUL then 0 else 1)"
| "strcmp (c1 # cs) (c2 # ct) =
     (if c1 \<noteq> c2 then (if (of_char c1 :: nat) < of_char c2 then - 1 else 1)
      else if c1 = NUL then 0
      else strcmp cs ct)"

subsection \<open>The kernel's data, as far as the module reads it\<close>

text \<open>
  \<^verbatim>\<open>struct super_block\<close> and what hangs off it. A pointer that the source tests
  against NULL is an \<^typ>\<open>'a option\<close>; \<^verbatim>\<open>bd_disk\<close> and the \<^verbatim>\<open>name\<close> of a file system
  type are dereferenced without a test, and are plain fields. \<^verbatim>\<open>s_flags\<close> is an
  \<^verbatim>\<open>unsigned long\<close>.
\<close>

record partition_meta_info =
  uuid :: string
  volname :: string

record hd_struct =
  info :: "partition_meta_info option"

record gendisk =
  disk_name :: string

record block_device =
  bd_part :: "hd_struct option"
  bd_disk :: gendisk

record file_system_type =
  name :: string

record super_block =
  s_bdev :: "block_device option"
  s_type :: "file_system_type option"
  s_flags :: "64 word"

text \<open>\<^verbatim>\<open>MS_RDONLY\<close> of \<^verbatim>\<open>linux/fs.h\<close>: bit 0 of the mount flags.\<close>

definition MS_RDONLY :: "64 word" where
  "MS_RDONLY = 1"

subsection \<open>The scanner: \<^verbatim>\<open>find_ext4_superblock_by_dev\<close>\<close>

text \<open>
  The body of the \<^verbatim>\<open>for_each_super\<close> loop for one super block: \<open>True\<close> where the
  source reaches \<^verbatim>\<open>return sb\<close>, \<open>False\<close> where it goes on to the next one.
\<close>

definition sb_matches :: "super_block \<Rightarrow> string \<Rightarrow> bool" where
  "sb_matches sb devname =
     (case s_bdev sb of
        None \<Rightarrow> False
      | Some bdev \<Rightarrow>
          (case s_type sb of
             None \<Rightarrow> False
           | Some t \<Rightarrow>
               if strcmp (name t) ''ext4'' = 0 then
                 (case bd_part bdev of
                    None \<Rightarrow> False
                  | Some part \<Rightarrow>
                      (case info part of
                         None \<Rightarrow> False
                       | Some _ \<Rightarrow> strcmp (disk_name (bd_disk bdev)) devname = 0))
               else False))"

text \<open>
  The loop over the super blocks, in the order of the list. The pointer the source
  returns is the position of the super block in the list; \<open>None\<close> is \<^verbatim>\<open>NULL\<close>.
\<close>

fun for_each_super :: "super_block list \<Rightarrow> nat \<Rightarrow> string \<Rightarrow> nat option" where
  "for_each_super [] i devname = None"
| "for_each_super (sb # sbs) i devname =
     (if sb_matches sb devname then Some i else for_each_super sbs (Suc i) devname)"

definition find_ext4_superblock_by_dev :: "super_block list \<Rightarrow> string \<Rightarrow> nat option" where
  "find_ext4_superblock_by_dev sbs devname = for_each_super sbs 0 devname"

subsection \<open>The fields of the specification's mount record\<close>

text \<open>How the specification's \<open>MountRecord\<close> reads a super block: the kind is the C
  string of the type's name, the backing-device name the C string of the disk's name.\<close>

definition filesystem_kind :: "super_block \<Rightarrow> string option" where
  "filesystem_kind sb = (case s_type sb of None \<Rightarrow> None | Some t \<Rightarrow> Some (c_str (name t)))"

definition backing_device_name :: "super_block \<Rightarrow> string option" where
  "backing_device_name sb =
     (case s_bdev sb of None \<Rightarrow> None | Some bdev \<Rightarrow> Some (c_str (disk_name (bd_disk bdev))))"

definition has_partition_info :: "super_block \<Rightarrow> bool" where
  "has_partition_info sb =
     (case s_bdev sb of
        None \<Rightarrow> False
      | Some bdev \<Rightarrow>
          (case bd_part bdev of None \<Rightarrow> False | Some part \<Rightarrow> info part \<noteq> None))"

definition is_read_only :: "super_block \<Rightarrow> bool" where
  "is_read_only sb = (s_flags sb AND MS_RDONLY \<noteq> 0)"

text \<open>The match predicate in the words of the specification, with the partition
  metadata that the source asks for as well.\<close>

definition match_predicate :: "super_block \<Rightarrow> string \<Rightarrow> bool" where
  "match_predicate sb devname \<longleftrightarrow>
     filesystem_kind sb = Some ''ext4'' \<and> has_partition_info sb \<and>
     backing_device_name sb = Some (c_str devname)"

subsection \<open>The module's state and the kernel log\<close>

text \<open>
  One constructor for each \<^verbatim>\<open>pr_info\<close> or \<^verbatim>\<open>pr_warn\<close> of \<^verbatim>\<open>clear_device_store\<close>, with
  the string its \<^verbatim>\<open>%s\<close> prints:
  \<^item> \<open>Requested_device\<close>: "clear_sb_ro: requested device=%s";
  \<^item> \<open>No_ext4_sb_found\<close>: "clear_sb_ro: No ext4 sb found for device %s";
  \<^item> \<open>Found_rdonly_clearing\<close>: "clear_sb_ro: Found ext4 sb on %s, currently MS_RDONLY. Clearing...";
  \<^item> \<open>Completed\<close>: "clear_sb_ro: Completed. Now try remounting read-write in user space.";
  \<^item> \<open>Not_marked_read_only\<close>: "clear_sb_ro: %s superblock not marked read-only.".
\<close>

datatype log_line =
    Requested_device string
  | No_ext4_sb_found string
  | Found_rdonly_clearing string
  | Completed
  | Not_marked_read_only string

text \<open>
  What a call reads and writes: the bytes of the global \<^verbatim>\<open>clear_device\<close>, the kernel's
  super blocks in the order \<^verbatim>\<open>for_each_super\<close> visits them, and the kernel log.
  The array has 64 bytes in every state the module can be in; the theorems about the
  store callback assume this of the state they start from.
\<close>

record kernel_state =
  clear_device :: string
  super_blocks :: "super_block list"
  printk :: "log_line list"

text \<open>\<^verbatim>\<open>sizeof(clear_device)\<close>, from the declaration \<^verbatim>\<open>static char clear_device[64] = ""\<close>;
  the array starts as 64 NUL bytes.\<close>

definition sizeof_clear_device :: nat where
  "sizeof_clear_device = 64"

definition clear_device_init :: string where
  "clear_device_init = replicate sizeof_clear_device NUL"

subsection \<open>Array accesses\<close>

text \<open>A read or a write of \<^verbatim>\<open>a[i]\<close>. \<open>None\<close> is an access outside the array, which C
  leaves undefined.\<close>

definition peek :: "string \<Rightarrow> nat \<Rightarrow> char option" where
  "peek a i = (if i < length a then Some (a ! i) else None)"

definition poke :: "string \<Rightarrow> nat \<Rightarrow> char \<Rightarrow> string option" where
  "poke a i c = (if i < length a then Some (a[i := c]) else None)"

text \<open>
  \<^verbatim>\<open>strncpy\<close> of the kernel (lib/string.c) writes exactly \<open>count\<close> bytes: the bytes of
  the source up to its terminator, then NUL bytes.
  \<^verbatim>\<open>while (count) { if ((*tmp = *src) != 0) src++; tmp++; count--; }\<close>
\<close>

fun strncpy_bytes :: "string \<Rightarrow> nat \<Rightarrow> string" where
  "strncpy_bytes src 0 = []"
| "strncpy_bytes [] (Suc count) = NUL # strncpy_bytes [] count"
| "strncpy_bytes (c # src) (Suc count) =
     (if c \<noteq> NUL then c # strncpy_bytes src count
      else NUL # strncpy_bytes (c # src) count)"

definition strncpy :: "string \<Rightarrow> string \<Rightarrow> nat \<Rightarrow> string option" where
  "strncpy dest src count =
     (if count \<le> length dest then Some (strncpy_bytes src count @ drop count dest)
      else None)"

subsection \<open>The store callback: \<^verbatim>\<open>clear_device_store\<close>\<close>

text \<open>
  The loop that removes trailing newlines:
  \<^verbatim>\<open>while (len > 0 && (clear_device[len - 1] == '\n' || clear_device[len - 1] == '\r'))
    { clear_device[len - 1] = '\0'; len--; }\<close>
\<close>

fun strip_trailing :: "string \<Rightarrow> nat \<Rightarrow> (string \<times> nat) option" where
  "strip_trailing a 0 = Some (a, 0)"
| "strip_trailing a (Suc n) =
     (case peek a n of
        None \<Rightarrow> None
      | Some c \<Rightarrow>
          if c = LF \<or> c = CR then
            (case poke a n NUL of None \<Rightarrow> None | Some a' \<Rightarrow> strip_trailing a' n)
          else Some (a, Suc n))"

text \<open>
  Lines 101 to 115, the specification's \<open>clear_read_only\<close>: the test of \<^verbatim>\<open>MS_RDONLY\<close>
  in the super block that \<open>i\<close> points to, the write \<^verbatim>\<open>sb->s_flags &= ~MS_RDONLY\<close>, and
  the lines logged. The outcome \<open>Cleared\<close> is the pair of lines of the first branch,
  \<open>AlreadyWritable\<close> the line of the second.
\<close>

definition clear_read_only ::
  "super_block list \<Rightarrow> nat \<Rightarrow> string \<Rightarrow> super_block list \<times> log_line list" where
  "clear_read_only sbs i dev =
     (let sb = sbs ! i in
      if s_flags sb AND MS_RDONLY \<noteq> 0 then
        (sbs[i := sb\<lparr>s_flags := s_flags sb AND NOT MS_RDONLY\<rparr>],
         [Found_rdonly_clearing dev, Completed])
      else (sbs, [Not_marked_read_only dev]))"

text \<open>
  \<^verbatim>\<open>size_t\<close> is an unsigned 64-bit integer and \<^verbatim>\<open>ssize_t\<close> a signed one (a 64-bit
  kernel). Returning a \<^verbatim>\<open>size_t\<close> from a function whose result is \<^verbatim>\<open>ssize_t\<close> reads
  the same 64 bits as a two's complement number, which is \<^term>\<open>sint\<close>.
\<close>

type_synonym size_t = "64 word"

text \<open>
  The callback. \<open>buf\<close> lists the bytes of the caller's buffer (sysfs puts a NUL after
  them) and \<open>count\<close> is the \<^verbatim>\<open>size_t\<close> that the caller passes as their number. The
  minimum \<^verbatim>\<open>min(count, (size_t)(sizeof(clear_device) - 1))\<close> is taken on unsigned
  64-bit values; the return value is \<open>count\<close> converted to \<^verbatim>\<open>ssize_t\<close>. The result
  is \<open>None\<close> when an array access leaves \<^verbatim>\<open>clear_device\<close>.
\<close>

definition clear_device_store ::
  "kernel_state \<Rightarrow> string \<Rightarrow> size_t \<Rightarrow> (int \<times> kernel_state) option" where
  "clear_device_store k buf count =
     (let len = unat (min count (word_of_nat (sizeof_clear_device - 1))) in
      case strncpy (clear_device k) buf len of
        None \<Rightarrow> None
      | Some a1 \<Rightarrow>
          (case poke a1 len NUL of
             None \<Rightarrow> None
           | Some a2 \<Rightarrow>
               (case strip_trailing a2 len of
                  None \<Rightarrow> None
                | Some (a3, len') \<Rightarrow>
                    (let k1 = k\<lparr>clear_device := a3,
                                printk := printk k @ [Requested_device (c_str a3)]\<rparr> in
                     case find_ext4_superblock_by_dev (super_blocks k1) a3 of
                       None \<Rightarrow>
                         Some (sint count,
                           k1\<lparr>printk := printk k1 @ [No_ext4_sb_found (c_str a3)]\<rparr>)
                     | Some sb \<Rightarrow>
                         (let (sbs', logged) = clear_read_only (super_blocks k1) sb (c_str a3)
                          in Some (sint count,
                               k1\<lparr>super_blocks := sbs', printk := printk k1 @ logged\<rparr>))))))"

subsection \<open>The show callback: \<^verbatim>\<open>clear_device_show\<close>\<close>

text \<open>
  \<^verbatim>\<open>scnprintf(buf, PAGE_SIZE, "%s\n", clear_device)\<close> writes the C string in
  \<^verbatim>\<open>clear_device\<close> and a newline, cut to \<^verbatim>\<open>PAGE_SIZE - 1\<close> bytes, and returns how many
  bytes it wrote. \<^verbatim>\<open>PAGE_SIZE\<close> belongs to the kernel's configuration and is a
  parameter here. The result is the return value and the bytes written.
\<close>

definition clear_device_show :: "nat \<Rightarrow> kernel_state \<Rightarrow> int \<times> string" where
  "clear_device_show page_size k =
     (let out = take (page_size - 1) (c_str (clear_device k) @ [LF])
      in (int (length out), out))"

subsection \<open>Normalisation in the words of the specification\<close>

text \<open>Trimming removes the trailing newline and carriage-return bytes; truncating
  keeps the first 63 bytes.\<close>

definition trim :: "string \<Rightarrow> string" where
  "trim s = rev (dropWhile (\<lambda>c. c = LF \<or> c = CR) (rev s))"

definition truncate_to_bound :: "string \<Rightarrow> string" where
  "truncate_to_bound s = take (sizeof_clear_device - 1) s"

subsection \<open>The bytes a store leaves in \<^verbatim>\<open>clear_device\<close>\<close>

text \<open>
  The array after a store, in closed form, for the value \<open>n\<close> of \<open>count\<close>: the copied
  bytes without their trailing newlines, NUL bytes up to and including index \<open>len\<close>,
  and the old bytes behind. The lemma \<open>clear_device_store_unfold\<close> below derives it
  from the callback.
\<close>

definition stored_bytes :: "string \<Rightarrow> string \<Rightarrow> nat \<Rightarrow> string" where
  "stored_bytes old buf n =
     (let len = min n (sizeof_clear_device - 1);
          s = trim (strncpy_bytes buf len)
      in s @ replicate (Suc len - length s) NUL @ drop (Suc len) old)"

subsection \<open>Example super blocks\<close>

text \<open>A block device with partition metadata, one with no \<^verbatim>\<open>bd_part\<close>, a super block
  of a given file system type on a device, and the state right after the module is
  loaded.\<close>

definition part_of_disk :: "string \<Rightarrow> block_device" where
  "part_of_disk dev =
     \<lparr>bd_part = Some \<lparr>info = Some \<lparr>uuid = [], volname = []\<rparr>\<rparr>, bd_disk = \<lparr>disk_name = dev\<rparr>\<rparr>"

definition unpartitioned :: "string \<Rightarrow> block_device" where
  "unpartitioned dev = \<lparr>bd_part = None, bd_disk = \<lparr>disk_name = dev\<rparr>\<rparr>"

definition mounted :: "string \<Rightarrow> block_device \<Rightarrow> 64 word \<Rightarrow> super_block" where
  "mounted kind bdev flags = \<lparr>s_bdev = Some bdev, s_type = Some \<lparr>name = kind\<rparr>, s_flags = flags\<rparr>"

definition loaded :: "super_block list \<Rightarrow> kernel_state" where
  "loaded sbs = \<lparr>clear_device = clear_device_init, super_blocks = sbs, printk = []\<rparr>"

lemmas example_defs = part_of_disk_def unpartitioned_def mounted_def loaded_def
  clear_device_init_def sizeof_clear_device_def

lemmas view_defs = filesystem_kind_def backing_device_name_def has_partition_info_def
  is_read_only_def c_str_def MS_RDONLY_def

lemmas scanner_defs = find_ext4_superblock_by_dev_def sb_matches_def

section \<open>Properties of the scanner\<close>

lemma strcmp_eq_0_iff: "strcmp a b = 0 \<longleftrightarrow> c_str a = c_str b"
  by (induction a b rule: strcmp.induct) (auto simp: c_str_def)

lemma c_str_ext4: "c_str ''ext4'' = ''ext4''"
  by (simp add: c_str_def)

lemma sb_matches_iff: "sb_matches sb devname \<longleftrightarrow> match_predicate sb devname"
  by (auto simp: sb_matches_def match_predicate_def filesystem_kind_def has_partition_info_def
      backing_device_name_def strcmp_eq_0_iff c_str_ext4 split: option.splits)

lemma for_each_super_None:
  "for_each_super sbs k devname = None \<longleftrightarrow> (\<forall>sb \<in> set sbs. \<not> sb_matches sb devname)"
  by (induction sbs arbitrary: k) auto

lemma for_each_super_Some:
  "for_each_super sbs k devname = Some i \<longleftrightarrow>
     (\<exists>j < length sbs. i = k + j \<and> sb_matches (sbs ! j) devname \<and>
        (\<forall>l < j. \<not> sb_matches (sbs ! l) devname))"
proof (induction sbs arbitrary: k)
  case Nil
  then show ?case by simp
next
  case (Cons sb sbs)
  show ?case
  proof (cases "sb_matches sb devname")
    case True
    have "j = 0" if "\<forall>l < j. \<not> sb_matches ((sb # sbs) ! l) devname" for j
      using that True by (cases j) auto
    then have "(\<exists>j < length (sb # sbs). i = k + j \<and> sb_matches ((sb # sbs) ! j) devname \<and>
            (\<forall>l < j. \<not> sb_matches ((sb # sbs) ! l) devname)) \<longleftrightarrow> i = k"
      using True by auto
    with True show ?thesis by auto
  next
    case False
    have "(\<exists>j < length sbs. i = Suc k + j \<and> sb_matches (sbs ! j) devname \<and>
            (\<forall>l < j. \<not> sb_matches (sbs ! l) devname))
        \<longleftrightarrow> (\<exists>j < length (sb # sbs). i = k + j \<and> sb_matches ((sb # sbs) ! j) devname \<and>
            (\<forall>l < j. \<not> sb_matches ((sb # sbs) ! l) devname))" (is "?L \<longleftrightarrow> ?R")
    proof
      assume ?L
      then obtain j where j: "j < length sbs" "i = Suc k + j" "sb_matches (sbs ! j) devname"
        "\<forall>l < j. \<not> sb_matches (sbs ! l) devname" by blast
      have "\<forall>l < Suc j. \<not> sb_matches ((sb # sbs) ! l) devname"
        using j(4) False by (auto simp: nth_Cons split: nat.splits)
      with j show ?R by (intro exI[of _ "Suc j"]) auto
    next
      assume ?R
      then obtain j where j: "j < length (sb # sbs)" "i = k + j" "sb_matches ((sb # sbs) ! j) devname"
        "\<forall>l < j. \<not> sb_matches ((sb # sbs) ! l) devname" by blast
      from j(3) False obtain j' where j': "j = Suc j'" by (cases j) auto
      have "\<forall>l < j'. \<not> sb_matches (sbs ! l) devname"
        using j(4) j' by (metis Suc_less_eq nth_Cons_Suc)
      with j j' show ?L by (intro exI[of _ j']) auto
    qed
    with False Cons.IH[of "Suc k"] show ?thesis by simp
  qed
qed

lemma find_Some_iff:
  "find_ext4_superblock_by_dev sbs devname = Some i \<longleftrightarrow>
     i < length sbs \<and> sb_matches (sbs ! i) devname \<and> (\<forall>l < i. \<not> sb_matches (sbs ! l) devname)"
  by (auto simp: find_ext4_superblock_by_dev_def for_each_super_Some)

lemma find_None_iff:
  "find_ext4_superblock_by_dev sbs devname = None \<longleftrightarrow> (\<forall>sb \<in> set sbs. \<not> sb_matches sb devname)"
  by (simp add: find_ext4_superblock_by_dev_def for_each_super_None)

lemma find_Some_iff_spec:
  "find_ext4_superblock_by_dev sbs devname = Some i \<longleftrightarrow>
     i < length sbs \<and> match_predicate (sbs ! i) devname \<and>
     (\<forall>l < i. \<not> match_predicate (sbs ! l) devname)"
  by (simp add: find_Some_iff sb_matches_iff)

lemma find_None_iff_spec:
  "find_ext4_superblock_by_dev sbs devname = None \<longleftrightarrow>
     (\<forall>sb \<in> set sbs. \<not> match_predicate sb devname)"
  by (simp add: find_None_iff sb_matches_iff)

lemma rdonly_cleared: "((w :: 64 word) AND NOT MS_RDONLY) AND MS_RDONLY = 0"
  by (simp add: and.assoc)

section \<open>Properties of the store callback\<close>

lemma length_strncpy_bytes: "length (strncpy_bytes src n) = n"
  by (induction src n rule: strncpy_bytes.induct) auto

lemma strncpy_bytes_Nil: "strncpy_bytes [] n = replicate n NUL"
  by (induction n) auto

lemma strncpy_bytes_NUL: "strncpy_bytes (NUL # src) n = replicate n NUL"
  by (induction n) auto

lemma strncpy_bytes_eq:
  "strncpy_bytes src n = c_str (take n src) @ replicate (n - length (c_str (take n src))) NUL"
proof (induction src n rule: strncpy_bytes.induct)
  case (1 src)
  then show ?case by (simp add: c_str_def)
next
  case (2 count)
  then show ?case by (simp add: c_str_def strncpy_bytes_Nil)
next
  case (3 c src count)
  show ?case
  proof (cases "c = NUL")
    case True
    have "strncpy_bytes (c # src) (Suc count) = replicate (Suc count) NUL"
      unfolding True by (rule strncpy_bytes_NUL)
    then show ?thesis using True by (simp add: c_str_def)
  next
    case False
    with 3 show ?thesis by (simp add: c_str_def)
  qed
qed

lemma trim_snoc:
  "trim (s @ [c]) = (if c = LF \<or> c = CR then trim s else s @ [c])"
  by (simp add: trim_def)

lemma length_trim_le: "length (trim s) \<le> length s"
  by (simp add: trim_def length_dropWhile_le[of _ "rev s", simplified])

lemma strip_trailing_eq:
  "n \<le> length a \<Longrightarrow>
   strip_trailing a n =
     Some (trim (take n a) @ replicate (n - length (trim (take n a))) NUL @ drop n a,
           length (trim (take n a)))"
proof (induction n arbitrary: a)
  case 0
  then show ?case by (simp add: trim_def)
next
  case (Suc n)
  then have lt: "n < length a" by simp
  have tk: "take (Suc n) a = take n a @ [a ! n]"
    using lt by (simp add: take_Suc_conv_app_nth)
  show ?case
  proof (cases "a ! n = LF \<or> a ! n = CR")
    case True
    let ?a' = "a[n := NUL]"
    have "strip_trailing a (Suc n) = strip_trailing ?a' n"
      using True lt by (auto simp: peek_def poke_def)
    also have "\<dots> = Some (trim (take n ?a') @ replicate (n - length (trim (take n ?a'))) NUL @ drop n ?a',
           length (trim (take n ?a')))"
      using lt by (intro Suc.IH) simp
    also have "take n ?a' = take n a" by simp
    also have "drop n ?a' = NUL # drop (Suc n) a"
      using lt by (simp add: drop_update_cancel Cons_nth_drop_Suc[symmetric] upd_conv_take_nth_drop)
    finally show ?thesis
      using True length_trim_le[of "take n a"] lt
      by (simp add: tk trim_snoc replicate_append_same Suc_diff_le min_def)
  next
    case False
    then show ?thesis using lt id_take_nth_drop[OF lt]
      by (auto simp: peek_def tk trim_snoc)
  qed
qed

lemma memory_ops:
  assumes "length old = sizeof_clear_device"
    and len_def: "len = min count (sizeof_clear_device - 1)"
  shows "strncpy old buf len = Some (strncpy_bytes buf len @ drop len old)"
    and "poke (strncpy_bytes buf len @ drop len old) len NUL
           = Some (strncpy_bytes buf len @ NUL # drop (Suc len) old)"
    and "strip_trailing (strncpy_bytes buf len @ NUL # drop (Suc len) old) len
           = Some (stored_bytes old buf count, length (trim (strncpy_bytes buf len)))"
proof -
  have len: "len < length old"
    using assms by (simp add: sizeof_clear_device_def)
  show "strncpy old buf len = Some (strncpy_bytes buf len @ drop len old)"
    using len by (simp add: strncpy_def)
  show "poke (strncpy_bytes buf len @ drop len old) len NUL
           = Some (strncpy_bytes buf len @ NUL # drop (Suc len) old)"
    using len
    by (simp add: poke_def length_strncpy_bytes list_update_append Cons_nth_drop_Suc[symmetric])
  let ?a2 = "strncpy_bytes buf len @ NUL # drop (Suc len) old"
  have "len \<le> length ?a2" by (simp add: length_strncpy_bytes)
  from strip_trailing_eq[OF this]
  show "strip_trailing ?a2 len
           = Some (stored_bytes old buf count, length (trim (strncpy_bytes buf len)))"
    using length_trim_le[of "strncpy_bytes buf len"]
    by (simp add: length_strncpy_bytes stored_bytes_def len_def Let_def
        replicate_app_Cons_same Suc_diff_le)
qed

lemma unat_min_bound:
  "unat (min (count :: size_t) (word_of_nat (sizeof_clear_device - 1)))
     = min (unat count) (sizeof_clear_device - 1)"
  by (simp add: min_def word_le_nat_alt sizeof_clear_device_def)

lemma clear_device_store_unfold:
  assumes "length (clear_device k) = sizeof_clear_device"
  shows "clear_device_store k buf count =
     (let a3 = stored_bytes (clear_device k) buf (unat count);
          k1 = k\<lparr>clear_device := a3, printk := printk k @ [Requested_device (c_str a3)]\<rparr>
      in case find_ext4_superblock_by_dev (super_blocks k) a3 of
           None \<Rightarrow> Some (sint count, k1\<lparr>printk := printk k1 @ [No_ext4_sb_found (c_str a3)]\<rparr>)
         | Some sb \<Rightarrow>
             Some (sint count,
               k1\<lparr>super_blocks := fst (clear_read_only (super_blocks k) sb (c_str a3)),
                  printk := printk k1 @ snd (clear_read_only (super_blocks k) sb (c_str a3))\<rparr>))"
  unfolding clear_device_store_def Let_def unat_min_bound memory_ops[OF assms refl]
    option.case prod.case
  by (simp add: case_prod_beta split: option.splits)

lemma length_stored_bytes:
  "length old = sizeof_clear_device \<Longrightarrow> length (stored_bytes old buf count) = sizeof_clear_device"
  using length_trim_le[of "strncpy_bytes buf (min count (sizeof_clear_device - 1))"]
  by (auto simp: stored_bytes_def Let_def length_strncpy_bytes sizeof_clear_device_def)

lemma c_str_append_NUL: "c_str (xs @ NUL # ys) = c_str (xs)"
  by (induction xs) (auto simp: c_str_def)

lemma c_str_idem: "c_str (c_str xs) = c_str xs"
  by (simp add: c_str_def)

lemma c_str_stored_bytes:
  "c_str (stored_bytes old buf count) =
     c_str (trim (strncpy_bytes buf (min count (sizeof_clear_device - 1))))"
  using length_trim_le[of "strncpy_bytes buf (min count (sizeof_clear_device - 1))"]
  by (simp add: stored_bytes_def Let_def length_strncpy_bytes Suc_diff_le c_str_append_NUL)

lemma trim_append_NUL: "trim (xs @ NUL # ys) = xs @ NUL # trim ys"
proof (induction ys rule: rev_induct)
  case Nil
  show ?case using trim_snoc[of xs NUL] by (simp add: trim_def)
next
  case (snoc c ys)
  have "trim (xs @ NUL # ys @ [c]) = trim ((xs @ NUL # ys) @ [c])" by simp
  also have "\<dots> = (if c = LF \<or> c = CR then trim (xs @ NUL # ys) else (xs @ NUL # ys) @ [c])"
    by (rule trim_snoc)
  finally show ?case using snoc by (simp add: trim_snoc)
qed

lemma c_str_eq_self: "NUL \<notin> set xs \<Longrightarrow> c_str xs = xs"
  by (auto simp: c_str_def)

lemma c_str_split: "NUL \<in> set xs \<Longrightarrow> \<exists>ys. xs = c_str xs @ NUL # ys"
proof -
  assume a: "NUL \<in> set xs"
  have "xs = c_str xs @ dropWhile (\<lambda>c. c \<noteq> NUL) xs"
    by (simp add: c_str_def)
  moreover from a have "dropWhile (\<lambda>c. c \<noteq> NUL) xs \<noteq> []" by simp
  then have "hd (dropWhile (\<lambda>c. c \<noteq> NUL) xs) = NUL"
    using hd_dropWhile[of "\<lambda>c. c \<noteq> NUL" xs] by simp
  ultimately show ?thesis
    by (metis \<open>dropWhile (\<lambda>c. c \<noteq> NUL) xs \<noteq> []\<close> list.collapse)
qed

lemma c_str_trim_strncpy_bytes:
  assumes "n \<le> length buf"
  shows "c_str (trim (strncpy_bytes buf n)) = c_str (trim (take n buf))"
proof (cases "NUL \<in> set (take n buf)")
  case True
  then obtain ys where ys: "take n buf = c_str (take n buf) @ NUL # ys"
    using c_str_split by blast
  let ?s = "c_str (take n buf)"
  have "length (take n buf) = n" using assms by simp
  with ys have "length ?s < n"
    by (metis length_append length_Cons less_add_Suc1 add_Suc_right)
  then obtain m where m: "n - length ?s = Suc m" by (cases "n - length ?s") auto
  have "strncpy_bytes buf n = ?s @ NUL # replicate m NUL"
    by (simp add: strncpy_bytes_eq m)
  then have "c_str (trim (strncpy_bytes buf n)) = c_str ?s"
    by (simp add: trim_append_NUL c_str_append_NUL)
  moreover have "c_str (trim (take n buf)) = c_str ?s"
    by (subst ys) (simp add: trim_append_NUL c_str_append_NUL)
  ultimately show ?thesis by simp
next
  case False
  then have "c_str (take n buf) = take n buf" by (rule c_str_eq_self)
  moreover have "length (take n buf) = n" using assms by simp
  ultimately show ?thesis by (simp add: strncpy_bytes_eq)
qed

lemma store_returns:
  assumes "length (clear_device k) = sizeof_clear_device"
  shows "\<exists>k'. clear_device_store k buf count = Some (sint count, k')"
  by (simp add: clear_device_store_unfold[OF assms] Let_def split: option.splits)

lemma store_clear_device:
  assumes "length (clear_device k) = sizeof_clear_device"
    and "clear_device_store k buf count = Some (r, k')"
  shows "clear_device k' = stored_bytes (clear_device k) buf (unat count)"
  using assms(2)
  by (auto simp: clear_device_store_unfold[OF assms(1)] Let_def split: option.splits)

lemma store_not_found:
  assumes "length (clear_device k) = sizeof_clear_device"
    and "clear_device_store k buf count = Some (r, k')"
    and "find_ext4_superblock_by_dev (super_blocks k) (clear_device k') = None"
  shows "super_blocks k' = super_blocks k"
    and "printk k' = printk k @ [Requested_device (c_str (clear_device k')),
                                  No_ext4_sb_found (c_str (clear_device k'))]"
  using assms(2,3) store_clear_device[OF assms(1,2)]
  by (auto simp: clear_device_store_unfold[OF assms(1)] Let_def split: option.splits)

lemma store_found:
  assumes "length (clear_device k) = sizeof_clear_device"
    and "clear_device_store k buf count = Some (r, k')"
    and "find_ext4_superblock_by_dev (super_blocks k) (clear_device k') = Some i"
  shows "super_blocks k' = fst (clear_read_only (super_blocks k) i (c_str (clear_device k')))"
    and "printk k' = printk k @ Requested_device (c_str (clear_device k')) #
                       snd (clear_read_only (super_blocks k) i (c_str (clear_device k')))"
  using assms(2,3) store_clear_device[OF assms(1,2)]
  by (auto simp: clear_device_store_unfold[OF assms(1)] Let_def split: option.splits)

lemma find_c_str: "find_ext4_superblock_by_dev sbs (c_str d) = find_ext4_superblock_by_dev sbs d"
proof -
  have "sb_matches sb (c_str d) = sb_matches sb d" for sb
    by (simp add: sb_matches_iff match_predicate_def c_str_idem)
  then have "for_each_super sbs n (c_str d) = for_each_super sbs n d" for n
    by (induction sbs arbitrary: n) auto
  then show ?thesis by (simp add: find_ext4_superblock_by_dev_def)
qed

lemma set_trim: "set (trim s) \<subseteq> set s"
  using set_dropWhileD[of _ "\<lambda>c. c = LF \<or> c = CR" "rev s"] by (auto simp: trim_def)

lemma trim_no_trailing: "s \<noteq> [] \<Longrightarrow> last s \<noteq> LF \<Longrightarrow> last s \<noteq> CR \<Longrightarrow> trim s = s"
  by (cases s rule: rev_cases) (simp_all add: trim_snoc)

lemma ssize_t_small: "unat (count :: size_t) < 2 ^ 63 \<Longrightarrow> sint count = int (unat count)"
proof -
  assume a: "unat count < 2 ^ 63"
  have "int (unat count) < int (2 ^ 63)" using a by (simp only: of_nat_less_iff)
  then have "uint count < 2 ^ 63"
    by (simp only: uint_nat[symmetric] of_nat_power of_nat_numeral)
  then have "signed_take_bit 63 (uint count) = uint count"
    by (intro signed_take_bit_int_eq_self) (simp_all add: order_trans[of _ 0])
  then show ?thesis by (simp add: sint_uint)
qed

lemma ssize_t_large: "2 ^ 63 \<le> unat (count :: size_t) \<Longrightarrow> sint count = int (unat count) - 2 ^ 64"
proof -
  assume a: "2 ^ 63 \<le> unat count"
  have "int (2 ^ 63) \<le> int (unat count)" using a by (simp only: of_nat_le_iff)
  then have lo: "2 ^ 63 \<le> uint count"
    by (simp only: uint_nat[symmetric] of_nat_power of_nat_numeral)
  have hi: "uint count < 2 ^ 64" using uint_lt2p[of count] by simp
  have "uint count + 2 ^ 63 = (uint count - 2 ^ 63) + 2 ^ 64"
    by simp
  then have "(uint count + 2 ^ 63) mod 2 ^ 64 = ((uint count - 2 ^ 63) + 2 ^ 64) mod 2 ^ 64"
    by (rule arg_cong)
  also have "\<dots> = (uint count - 2 ^ 63) mod 2 ^ 64"
    by (simp only: mod_add_self2)
  also have "\<dots> = uint count - 2 ^ 63"
    using lo hi by (intro mod_pos_pos_trivial) simp_all
  finally have "signed_take_bit 63 (uint count) = uint count - 2 ^ 64"
    by (simp add: signed_take_bit_eq_take_bit_shift take_bit_eq_mod)
  then show ?thesis by (simp add: sint_uint)
qed

subsection \<open>Runs of the callbacks on the example states\<close>

lemma run_size_max:
  "clear_device_store (loaded []) ''sda1'' 18446744073709551615
     = Some (- 1, \<lparr>clear_device = ''sda1'' @ replicate 60 NUL, super_blocks = [],
                    printk = [Requested_device ''sda1'', No_ext4_sb_found ''sda1'']\<rparr>)"
  by code_simp

lemma run_cleared:
  "clear_device_store
       (loaded [mounted ''ext4'' (part_of_disk ''sda1'') 1,
                mounted ''ext4'' (part_of_disk ''sdb1'') 0]) (''sda1'' @ [LF]) 5
     = Some (5, \<lparr>clear_device = ''sda1'' @ replicate 60 NUL,
                  super_blocks = [mounted ''ext4'' (part_of_disk ''sda1'') 0,
                                  mounted ''ext4'' (part_of_disk ''sdb1'') 0],
                  printk = [Requested_device ''sda1'', Found_rdonly_clearing ''sda1'',
                            Completed]\<rparr>)"
  by code_simp

lemma run_already_writable:
  "clear_device_store
       (loaded [mounted ''ext4'' (part_of_disk ''sda1'') 1,
                mounted ''ext4'' (part_of_disk ''sdb1'') 0]) ''sdb1'' 4
     = Some (4, \<lparr>clear_device = ''sdb1'' @ replicate 60 NUL,
                  super_blocks = [mounted ''ext4'' (part_of_disk ''sda1'') 1,
                                  mounted ''ext4'' (part_of_disk ''sdb1'') 0],
                  printk = [Requested_device ''sdb1'', Not_marked_read_only ''sdb1'']\<rparr>)"
  by code_simp

lemma run_not_found:
  "clear_device_store (loaded []) (''sda1'' @ [LF]) 5
     = Some (5, \<lparr>clear_device = ''sda1'' @ replicate 60 NUL, super_blocks = [],
                  printk = [Requested_device ''sda1'', No_ext4_sb_found ''sda1'']\<rparr>)"
  by code_simp

lemma run_not_found_sdb1:
  "clear_device_store
       (loaded [mounted ''ext4'' (part_of_disk ''sda1'') 1,
                mounted ''xfs'' (part_of_disk ''sdb1'') 1]) ''sdb1'' 4
     = Some (4, \<lparr>clear_device = ''sdb1'' @ replicate 60 NUL,
                  super_blocks = [mounted ''ext4'' (part_of_disk ''sda1'') 1,
                                  mounted ''xfs'' (part_of_disk ''sdb1'') 1],
                  printk = [Requested_device ''sdb1'', No_ext4_sb_found ''sdb1'']\<rparr>)"
  by code_simp

lemma length_loaded: "length (clear_device (loaded sbs)) = sizeof_clear_device"
  by (simp add: loaded_def clear_device_init_def)

lemma show_sda1:
  "clear_device_show 4096 \<lparr>clear_device = ''sda1'' @ replicate 60 NUL, super_blocks = [],
                  printk = [Requested_device ''sda1'', No_ext4_sb_found ''sda1'']\<rparr>
     = (5, ''sda1'' @ [LF])"
  by (simp add: clear_device_show_def c_str_def)

lemma run_70x:
  "clear_device_store (loaded []) (replicate 70 (CHR ''x'')) 70
     = Some (70, \<lparr>clear_device = replicate 63 (CHR ''x'') @ [NUL], super_blocks = [],
                   printk = [Requested_device (replicate 63 (CHR ''x'')),
                             No_ext4_sb_found (replicate 63 (CHR ''x''))]\<rparr>)"
  by code_simp

section \<open>The claims\<close>

text \<open>
  Claim C1. For a super block that the scanner returned, \<open>clear_read_only\<close> tests
  \<^verbatim>\<open>MS_RDONLY\<close>: when the flag is set it clears it (nothing else in the list changes)
  and logs the two lines of the outcome \<open>Cleared\<close>; when the flag is clear it changes
  nothing and logs the line of the outcome \<open>AlreadyWritable\<close>. After one application
  the flag is clear, and a second application changes nothing and is \<open>AlreadyWritable\<close>.
\<close>

theorem clear_read_only_idempotent:
  assumes "find_ext4_superblock_by_dev sbs devname = Some i"
  shows "(is_read_only (sbs ! i) \<longrightarrow>
            clear_read_only sbs i dev =
              (sbs[i := (sbs ! i)\<lparr>s_flags := s_flags (sbs ! i) AND NOT MS_RDONLY\<rparr>],
               [Found_rdonly_clearing dev, Completed]))
       \<and> (\<not> is_read_only (sbs ! i) \<longrightarrow>
            clear_read_only sbs i dev = (sbs, [Not_marked_read_only dev]))
       \<and> \<not> is_read_only (fst (clear_read_only sbs i dev) ! i)
       \<and> clear_read_only (fst (clear_read_only sbs i dev)) i dev =
            (fst (clear_read_only sbs i dev), [Not_marked_read_only dev])"
proof -
  from assms have i: "i < length sbs" by (simp add: find_Some_iff)
  let ?sbs' = "fst (clear_read_only sbs i dev)"
  have first: "is_read_only (sbs ! i) \<longrightarrow>
            clear_read_only sbs i dev =
              (sbs[i := (sbs ! i)\<lparr>s_flags := s_flags (sbs ! i) AND NOT MS_RDONLY\<rparr>],
               [Found_rdonly_clearing dev, Completed])"
    by (simp add: clear_read_only_def is_read_only_def Let_def)
  have second: "\<not> is_read_only (sbs ! i) \<longrightarrow>
            clear_read_only sbs i dev = (sbs, [Not_marked_read_only dev])"
    by (simp add: clear_read_only_def is_read_only_def Let_def)
  have clear: "\<not> is_read_only (?sbs' ! i)"
    using i by (simp add: clear_read_only_def is_read_only_def Let_def rdonly_cleared)
  then have again: "clear_read_only ?sbs' i dev = (?sbs', [Not_marked_read_only dev])"
    by (simp add: clear_read_only_def[of "fst (clear_read_only sbs i dev)"] is_read_only_def Let_def)
  from first second clear again show ?thesis by blast
qed

theorem clear_read_only_idempotent_witness:
  "find_ext4_superblock_by_dev [mounted ''ext4'' (part_of_disk ''sda1'') 1] ''sda1'' = Some 0
   \<and> is_read_only ([mounted ''ext4'' (part_of_disk ''sda1'') 1] ! 0)
   \<and> clear_read_only [mounted ''ext4'' (part_of_disk ''sda1'') 1] 0 ''sda1'' =
       ([mounted ''ext4'' (part_of_disk ''sda1'') 0], [Found_rdonly_clearing ''sda1'', Completed])
   \<and> find_ext4_superblock_by_dev [mounted ''ext4'' (part_of_disk ''sda1'') 0] ''sda1'' = Some 0
   \<and> \<not> is_read_only ([mounted ''ext4'' (part_of_disk ''sda1'') 0] ! 0)
   \<and> clear_read_only [mounted ''ext4'' (part_of_disk ''sda1'') 0] 0 ''sda1'' =
       ([mounted ''ext4'' (part_of_disk ''sda1'') 0], [Not_marked_read_only ''sda1''])"
proof -
  have f1: "find_ext4_superblock_by_dev [mounted ''ext4'' (part_of_disk ''sda1'') 1] ''sda1'' = Some 0"
    by (simp add: scanner_defs example_defs)
  have f0: "find_ext4_superblock_by_dev [mounted ''ext4'' (part_of_disk ''sda1'') 0] ''sda1'' = Some 0"
    by (simp add: scanner_defs example_defs)
  show ?thesis
    using f1 f0 clear_read_only_idempotent[OF f1, of "''sda1''"]
      clear_read_only_idempotent[OF f0, of "''sda1''"]
    by (simp add: is_read_only_def MS_RDONLY_def mounted_def)
qed

text \<open>
  Claim C2. When the device name is not the disk name of any ext4 super block, the
  scanner returns not-found; and a store whose stored name is that device name returns
  its byte count as \<^verbatim>\<open>ssize_t\<close>, leaves the list of super blocks as it was (every field
  of every super block, the read-only flags among them) and logs "no ext4 sb found".
\<close>

theorem not_found_no_mutation:
  assumes "\<forall>sb \<in> set sbs. filesystem_kind sb = Some ''ext4''
             \<longrightarrow> backing_device_name sb \<noteq> Some (c_str devname)"
  shows "find_ext4_superblock_by_dev sbs devname = None
     \<and> (\<forall>k buf count. length (clear_device k) = sizeof_clear_device \<and> super_blocks k = sbs
          \<longrightarrow> (\<exists>k'. clear_device_store k buf count = Some (sint count, k')
                 \<and> (c_str (clear_device k') = c_str devname \<longrightarrow>
                      super_blocks k' = sbs
                      \<and> printk k' = printk k @ [Requested_device (c_str devname),
                                                 No_ext4_sb_found (c_str devname)])))"
proof -
  from assms have none: "find_ext4_superblock_by_dev sbs devname = None"
    by (auto simp: find_None_iff_spec match_predicate_def)
  have store: "\<exists>k'. clear_device_store k buf count = Some (sint count, k')
                 \<and> (c_str (clear_device k') = c_str devname \<longrightarrow>
                      super_blocks k' = sbs
                      \<and> printk k' = printk k @ [Requested_device (c_str devname),
                                                 No_ext4_sb_found (c_str devname)])"
    if wf: "length (clear_device k) = sizeof_clear_device" and sbs: "super_blocks k = sbs"
    for k buf count
  proof -
    from store_returns[OF wf] obtain k' where
      k': "clear_device_store k buf count = Some (sint count, k')" by blast
    have "super_blocks k' = sbs
          \<and> printk k' = printk k @ [Requested_device (c_str devname),
                                     No_ext4_sb_found (c_str devname)]"
      if eq: "c_str (clear_device k') = c_str devname"
    proof -
      have "find_ext4_superblock_by_dev (super_blocks k) (clear_device k')
              = find_ext4_superblock_by_dev sbs (c_str devname)"
        using find_c_str[of sbs "clear_device k'"] eq sbs by simp
      also have "\<dots> = None" using none by (simp add: find_c_str)
      finally have nf: "find_ext4_superblock_by_dev (super_blocks k) (clear_device k') = None" .
      from store_not_found[OF wf k' nf] eq sbs show ?thesis by simp
    qed
    with k' show ?thesis by blast
  qed
  from none store show ?thesis by blast
qed

theorem not_found_no_mutation_witness:
  "backing_device_name (mounted ''ext4'' (part_of_disk ''sda1'') 1) \<noteq> Some ''sdb1''
   \<and> filesystem_kind (mounted ''xfs'' (part_of_disk ''sdb1'') 1) \<noteq> Some ''ext4''
   \<and> find_ext4_superblock_by_dev
       [mounted ''ext4'' (part_of_disk ''sda1'') 1,
        mounted ''xfs'' (part_of_disk ''sdb1'') 1] ''sdb1'' = None
   \<and> clear_device_store
       (loaded [mounted ''ext4'' (part_of_disk ''sda1'') 1,
                mounted ''xfs'' (part_of_disk ''sdb1'') 1]) ''sdb1'' 4
     = Some (4, \<lparr>clear_device = ''sdb1'' @ replicate 60 NUL,
                  super_blocks = [mounted ''ext4'' (part_of_disk ''sda1'') 1,
                                  mounted ''xfs'' (part_of_disk ''sdb1'') 1],
                  printk = [Requested_device ''sdb1'', No_ext4_sb_found ''sdb1'']\<rparr>)"
proof -
  have hyp: "\<forall>sb \<in> set [mounted ''ext4'' (part_of_disk ''sda1'') 1,
                          mounted ''xfs'' (part_of_disk ''sdb1'') 1].
               filesystem_kind sb = Some ''ext4''
               \<longrightarrow> backing_device_name sb \<noteq> Some (c_str ''sdb1'')"
    by (simp add: view_defs example_defs)
  have views: "backing_device_name (mounted ''ext4'' (part_of_disk ''sda1'') 1) \<noteq> Some ''sdb1''"
    "filesystem_kind (mounted ''xfs'' (part_of_disk ''sdb1'') 1) \<noteq> Some ''ext4''"
    by (simp_all add: view_defs example_defs)
  from not_found_no_mutation[OF hyp] views run_not_found_sdb1 show ?thesis
    by simp
qed

text \<open>
  Claim C3. A super block whose file system kind is not "ext4" is never the one the
  scanner returns, whatever the queried name, also when its disk name is the queried
  name (the witness has such a super block).
\<close>

theorem non_ext4_never_matched:
  assumes "i < length sbs" and "filesystem_kind (sbs ! i) \<noteq> Some ''ext4''"
  shows "find_ext4_superblock_by_dev sbs devname \<noteq> Some i"
  using assms by (simp add: find_Some_iff_spec match_predicate_def)

theorem non_ext4_never_matched_witness:
  "0 < length [mounted ''xfs'' (part_of_disk ''sda1'') 1]
   \<and> filesystem_kind ([mounted ''xfs'' (part_of_disk ''sda1'') 1] ! 0) \<noteq> Some ''ext4''
   \<and> backing_device_name ([mounted ''xfs'' (part_of_disk ''sda1'') 1] ! 0) = Some ''sda1''
   \<and> find_ext4_superblock_by_dev [mounted ''xfs'' (part_of_disk ''sda1'') 1] ''sda1'' \<noteq> Some 0"
  using non_ext4_never_matched[of 0 "[mounted ''xfs'' (part_of_disk ''sda1'') 1]" "''sda1''"]
  by (simp add: view_defs example_defs)

text \<open>
  Claim C4. A store of the five bytes "sda1\n" leaves the C string "sda1" in
  \<^verbatim>\<open>clear_device\<close> (the newline is stripped), and the show after it returns the five
  bytes "sda1\n" (one newline appended), for every page size that has room for them.
\<close>

theorem write_read_round_trip:
  assumes "length (clear_device k) = sizeof_clear_device" and "6 \<le> page_size"
  shows "\<exists>k'. clear_device_store k (''sda1'' @ [LF]) 5 = Some (5, k')
           \<and> c_str (clear_device k') = ''sda1''
           \<and> clear_device_show page_size k' = (5, ''sda1'' @ [LF])"
proof -
  from store_returns[OF assms(1)] obtain k' where
    k': "clear_device_store k (''sda1'' @ [LF]) 5 = Some (sint (5 :: size_t), k')" by blast
  have "c_str (clear_device k') = c_str (trim (strncpy_bytes (''sda1'' @ [LF]) 5))"
    using store_clear_device[OF assms(1) k']
    by (simp add: c_str_stored_bytes sizeof_clear_device_def)
  also have "\<dots> = ''sda1''"
    by (simp add: eval_nat_numeral trim_def c_str_def)
  finally have name: "c_str (clear_device k') = ''sda1''" .
  have "clear_device_show page_size k' = (5, ''sda1'' @ [LF])"
    using assms(2) by (simp add: clear_device_show_def name)
  with k' name show ?thesis by simp
qed

theorem write_read_round_trip_witness:
  "length (clear_device (loaded [])) = sizeof_clear_device \<and> (6::nat) \<le> 4096
   \<and> clear_device_store (loaded []) (''sda1'' @ [LF]) 5
     = Some (5, \<lparr>clear_device = ''sda1'' @ replicate 60 NUL, super_blocks = [],
                  printk = [Requested_device ''sda1'', No_ext4_sb_found ''sda1'']\<rparr>)
   \<and> clear_device_show 4096
       \<lparr>clear_device = ''sda1'' @ replicate 60 NUL, super_blocks = [],
        printk = [Requested_device ''sda1'', No_ext4_sb_found ''sda1'']\<rparr>
     = (5, ''sda1'' @ [LF])"
  using write_read_round_trip[OF length_loaded, of 4096 "[]"]
    length_loaded[of "[]"] run_not_found show_sda1
  by simp

text \<open>
  Claim C5, as stated: an input longer than 63 bytes leaves exactly its first 63 bytes
  and a NUL in \<^verbatim>\<open>clear_device\<close>. The store strips trailing newlines and carriage
  returns after it has cut the input: of a 65 byte input whose 63rd byte is a carriage
  return, 62 bytes are kept.
\<close>

theorem long_input_counterexample:
  "63 < length (replicate 62 (CHR ''b'') @ [CR, CHR ''c'', CHR ''d''])
   \<and> clear_device_store (loaded []) (replicate 62 (CHR ''b'') @ [CR, CHR ''c'', CHR ''d''])
        65
     = Some (65, \<lparr>clear_device = replicate 62 (CHR ''b'') @ replicate 2 NUL,
                   super_blocks = [],
                   printk = [Requested_device (replicate 62 (CHR ''b'')),
                             No_ext4_sb_found (replicate 62 (CHR ''b''))]\<rparr>)
   \<and> take 63 (replicate 62 (CHR ''b'') @ [CR, CHR ''c'', CHR ''d'']) @ [NUL]
       = replicate 62 (CHR ''b'') @ [CR, NUL]
   \<and> replicate 62 (CHR ''b'') @ replicate 2 NUL
       \<noteq> take 63 (replicate 62 (CHR ''b'') @ [CR, CHR ''c'', CHR ''d'']) @ [NUL]"
  by code_simp

text \<open>
  Claim C5, amended: for an input of \<open>count\<close> bytes, more than 63, the store makes
  no access outside the 64 bytes of \<^verbatim>\<open>clear_device\<close> (it returns, and the array keeps
  its size)
  and leaves a NUL-terminated string of at most 63 bytes there: the first 63 bytes of
  the input up to their first NUL byte, without their trailing newlines and carriage
  returns. When those 63 bytes hold no NUL and the 63rd is neither a newline nor a
  carriage return, the array holds exactly the 63 bytes and a NUL.
\<close>

theorem long_input_truncated:
  assumes "length (clear_device k) = sizeof_clear_device"
    and "length buf = unat count"
    and "sizeof_clear_device - 1 < length buf"
  shows "\<exists>k'. clear_device_store k buf count = Some (sint count, k')
           \<and> length (clear_device k') = sizeof_clear_device
           \<and> c_str (clear_device k') = c_str (trim (take 63 buf))
           \<and> length (c_str (clear_device k')) \<le> 63
           \<and> (NUL \<notin> set (take 63 buf) \<and> buf ! 62 \<noteq> LF \<and> buf ! 62 \<noteq> CR \<longrightarrow>
                clear_device k' = take 63 buf @ [NUL])"
proof -
  from store_returns[OF assms(1)] obtain k' where
    k': "clear_device_store k buf count = Some (sint count, k')" by blast
  have len: "min (length buf) (sizeof_clear_device - 1) = 63" and long: "63 < length buf"
    using assms(3) by (simp_all add: sizeof_clear_device_def)
  have bytes: "clear_device k' = stored_bytes (clear_device k) buf (length buf)"
    unfolding assms(2) by (rule store_clear_device[OF assms(1) k'])
  have size: "length (clear_device k') = sizeof_clear_device"
    unfolding bytes by (rule length_stored_bytes[OF assms(1)])
  have "c_str (clear_device k') = c_str (trim (strncpy_bytes buf 63))"
    unfolding bytes c_str_stored_bytes len ..
  also have "\<dots> = c_str (trim (take 63 buf))"
    using long by (intro c_str_trim_strncpy_bytes) simp
  finally have name: "c_str (clear_device k') = c_str (trim (take 63 buf))" .
  have "length (c_str (trim (take 63 buf))) \<le> length (trim (take 63 buf))"
    by (simp add: c_str_def length_takeWhile_le)
  also have "\<dots> \<le> length (take 63 buf)" by (rule length_trim_le)
  finally have short: "length (c_str (clear_device k')) \<le> 63"
    using long by (simp add: name)
  have exact: "clear_device k' = take 63 buf @ [NUL]"
    if "NUL \<notin> set (take 63 buf)" and "buf ! 62 \<noteq> LF" and "buf ! 62 \<noteq> CR"
  proof -
    have l: "length (take 63 buf) = 63" using long by simp
    have "take 63 buf = take 62 buf @ [buf ! 62]"
      using long take_Suc_conv_app_nth[of 62 buf] by simp
    then have "last (take 63 buf) = buf ! 62" and "take 63 buf \<noteq> []"
      by simp_all
    with that(2,3) have tr: "trim (take 63 buf) = take 63 buf"
      by (intro trim_no_trailing) simp_all
    have "strncpy_bytes buf 63 = take 63 buf"
      using c_str_eq_self[OF that(1)] l by (simp add: strncpy_bytes_eq)
    then show ?thesis
      using assms(1) l unfolding bytes
      by (simp add: stored_bytes_def Let_def len tr sizeof_clear_device_def)
  qed
  show ?thesis
  proof (intro exI[of _ k'] conjI impI)
    show "clear_device_store k buf count = Some (sint count, k')" by (rule k')
    show "length (clear_device k') = sizeof_clear_device" by (rule size)
    show "c_str (clear_device k') = c_str (trim (take 63 buf))" by (rule name)
    show "length (c_str (clear_device k')) \<le> 63" by (rule short)
    show "clear_device k' = take 63 buf @ [NUL]"
      if "NUL \<notin> set (take 63 buf) \<and> buf ! 62 \<noteq> LF \<and> buf ! 62 \<noteq> CR"
      using that exact by blast
  qed
qed

theorem long_input_truncated_witness:
  "length (clear_device (loaded [])) = sizeof_clear_device
   \<and> length (replicate 70 (CHR ''x'')) = unat (70 :: size_t)
   \<and> sizeof_clear_device - 1 < length (replicate 70 (CHR ''x''))
   \<and> NUL \<notin> set (take 63 (replicate 70 (CHR ''x'')))
   \<and> replicate 70 (CHR ''x'') ! 62 \<noteq> LF \<and> replicate 70 (CHR ''x'') ! 62 \<noteq> CR
   \<and> clear_device_store (loaded []) (replicate 70 (CHR ''x'')) 70
     = Some (70, \<lparr>clear_device = replicate 63 (CHR ''x'') @ [NUL], super_blocks = [],
                   printk = [Requested_device (replicate 63 (CHR ''x'')),
                             No_ext4_sb_found (replicate 63 (CHR ''x''))]\<rparr>)
   \<and> take 63 (replicate 70 (CHR ''x'')) @ [NUL] = replicate 63 (CHR ''x'') @ [NUL]"
proof -
  have cnt: "length (replicate 70 (CHR ''x'')) = unat (70 :: size_t)"
    by simp
  have side: "sizeof_clear_device - 1 < length (replicate 70 (CHR ''x''))"
    "NUL \<notin> set (take 63 (replicate 70 (CHR ''x'')))"
    "replicate 70 (CHR ''x'') ! 62 \<noteq> LF" "replicate 70 (CHR ''x'') ! 62 \<noteq> CR"
    "take 63 (replicate 70 (CHR ''x'')) @ [NUL] = replicate 63 (CHR ''x'') @ [NUL]"
    by (simp_all add: sizeof_clear_device_def)
  from long_input_truncated[OF length_loaded cnt side(1), of "[]"] cnt side run_70x
    length_loaded[of "[]"]
  show ?thesis by blast
qed

text \<open>
  Claim C6, as stated: the stored name is \<open>truncate_to_bound (trim buf)\<close>. The store cuts
  the input to 63 bytes first and strips the trailing newlines of what is left: of the
  64 bytes "a" (62 times), newline, "b" it keeps the 62 "a", while trimming first and
  truncating after keeps the newline.
\<close>

theorem trim_then_truncate_counterexample:
  "clear_device_store (loaded []) (replicate 62 (CHR ''a'') @ [LF, CHR ''b'']) 64
     = Some (64, \<lparr>clear_device = replicate 62 (CHR ''a'') @ replicate 2 NUL,
                   super_blocks = [],
                   printk = [Requested_device (replicate 62 (CHR ''a'')),
                             No_ext4_sb_found (replicate 62 (CHR ''a''))]\<rparr>)
   \<and> c_str (replicate 62 (CHR ''a'') @ replicate 2 NUL) = replicate 62 (CHR ''a'')
   \<and> truncate_to_bound (trim (replicate 62 (CHR ''a'') @ [LF, CHR ''b'']))
       = replicate 62 (CHR ''a'') @ [LF]
   \<and> c_str (replicate 62 (CHR ''a'') @ replicate 2 NUL)
       \<noteq> truncate_to_bound (trim (replicate 62 (CHR ''a'') @ [LF, CHR ''b'']))"
  by code_simp

text \<open>
  Claim C6, amended: for an input \<open>buf\<close> of \<open>count\<close> bytes, the stored name is
  \<open>trim (truncate_to_bound buf)\<close>, the input cut to 63 bytes and then without its
  trailing newlines and carriage returns (read as a C string: up to the first NUL
  byte, if the input has one).
\<close>

theorem store_truncates_then_trims:
  assumes "length (clear_device k) = sizeof_clear_device"
    and "length buf = unat count"
  shows "\<exists>k'. clear_device_store k buf count = Some (sint count, k')
           \<and> c_str (clear_device k') = c_str (trim (truncate_to_bound buf))
           \<and> (NUL \<notin> set buf \<longrightarrow> c_str (clear_device k') = trim (truncate_to_bound buf))"
proof -
  from store_returns[OF assms(1)] obtain k' where
    k': "clear_device_store k buf count = Some (sint count, k')" by blast
  let ?len = "min (length buf) (sizeof_clear_device - 1)"
  have "c_str (clear_device k') = c_str (trim (strncpy_bytes buf ?len))"
    using store_clear_device[OF assms(1) k'] by (simp add: c_str_stored_bytes assms(2))
  also have "\<dots> = c_str (trim (take ?len buf))"
    by (rule c_str_trim_strncpy_bytes) simp
  also have "take ?len buf = truncate_to_bound buf"
    by (simp add: truncate_to_bound_def min_def)
  finally have name: "c_str (clear_device k') = c_str (trim (truncate_to_bound buf))" .
  have "c_str (trim (truncate_to_bound buf)) = trim (truncate_to_bound buf)" if "NUL \<notin> set buf"
  proof (rule c_str_eq_self)
    have "set (trim (truncate_to_bound buf)) \<subseteq> set buf"
      using set_trim[of "truncate_to_bound buf"] set_take_subset[of "sizeof_clear_device - 1" buf]
      by (auto simp: truncate_to_bound_def)
    with that show "NUL \<notin> set (trim (truncate_to_bound buf))" by blast
  qed
  with k' name show ?thesis by auto
qed

theorem store_truncates_then_trims_witness:
  "length (clear_device (loaded [])) = sizeof_clear_device
   \<and> length (''sda1'' @ [LF]) = unat (5 :: size_t)
   \<and> clear_device_store (loaded []) (''sda1'' @ [LF]) 5
     = Some (5, \<lparr>clear_device = ''sda1'' @ replicate 60 NUL, super_blocks = [],
                  printk = [Requested_device ''sda1'', No_ext4_sb_found ''sda1'']\<rparr>)
   \<and> c_str (''sda1'' @ replicate 60 NUL) = trim (truncate_to_bound (''sda1'' @ [LF]))
   \<and> NUL \<notin> set (''sda1'' @ [LF])"
proof -
  have l: "length (''sda1'' @ [LF]) = unat (5 :: size_t)" by simp
  have e: "c_str (''sda1'' @ replicate 60 NUL) = trim (truncate_to_bound (''sda1'' @ [LF]))"
    "NUL \<notin> set (''sda1'' @ [LF])"
    by code_simp+
  from store_truncates_then_trims[OF length_loaded l, of "[]"]
    length_loaded[of "[]"] l run_not_found e
  show ?thesis by blast
qed

text \<open>
  Claim C7, as stated: the store returns the byte count for every byte count. The
  count is a \<^verbatim>\<open>size_t\<close> and the return value an \<^verbatim>\<open>ssize_t\<close>: for the count
  18446744073709551615 (\<^verbatim>\<open>SIZE_MAX\<close>) the store returns -1.
\<close>

theorem store_returns_count_counterexample:
  "clear_device_store (loaded []) ''sda1'' 18446744073709551615
     = Some (- 1, \<lparr>clear_device = ''sda1'' @ replicate 60 NUL, super_blocks = [],
                    printk = [Requested_device ''sda1'', No_ext4_sb_found ''sda1'']\<rparr>)
   \<and> unat (18446744073709551615 :: size_t) = 18446744073709551615
   \<and> (- 1 :: int) \<noteq> int (unat (18446744073709551615 :: size_t))"
proof -
  have "unat (18446744073709551615 :: size_t) = 18446744073709551615"
    and "(- 1 :: int) \<noteq> int (unat (18446744073709551615 :: size_t))"
    by simp_all
  with run_size_max show ?thesis by blast
qed

text \<open>
  Claim C7, amended: for every buffer, every byte count up to \<^verbatim>\<open>SSIZE_MAX\<close> (2^63 - 1;
  sysfs passes at most a page) and every list of super blocks, the store returns the
  byte count. Whether no super block was found, the one found was already writable or
  its flag was cleared shows in the lines logged only, never in the return value. A
  count above \<^verbatim>\<open>SSIZE_MAX\<close> comes back as the count minus 2^64.
\<close>

theorem store_returns_count:
  assumes "length (clear_device k) = sizeof_clear_device"
  shows "\<exists>k'. clear_device_store k buf count = Some (sint count, k')
     \<and> (unat count < 2 ^ 63 \<longrightarrow> sint count = int (unat count))
     \<and> (2 ^ 63 \<le> unat count \<longrightarrow> sint count = int (unat count) - 2 ^ 64)
     \<and> (find_ext4_superblock_by_dev (super_blocks k) (clear_device k') = None \<longrightarrow>
          printk k' = printk k @ [Requested_device (c_str (clear_device k')),
                                   No_ext4_sb_found (c_str (clear_device k'))])
     \<and> (\<forall>i. find_ext4_superblock_by_dev (super_blocks k) (clear_device k') = Some i
              \<and> \<not> is_read_only (super_blocks k ! i) \<longrightarrow>
          printk k' = printk k @ [Requested_device (c_str (clear_device k')),
                                   Not_marked_read_only (c_str (clear_device k'))])
     \<and> (\<forall>i. find_ext4_superblock_by_dev (super_blocks k) (clear_device k') = Some i
              \<and> is_read_only (super_blocks k ! i) \<longrightarrow>
          printk k' = printk k @ [Requested_device (c_str (clear_device k')),
                                   Found_rdonly_clearing (c_str (clear_device k')), Completed])"
proof -
  from store_returns[OF assms] obtain k' where
    k': "clear_device_store k buf count = Some (sint count, k')" by blast
  have nf: "printk k' = printk k @ [Requested_device (c_str (clear_device k')),
                                   No_ext4_sb_found (c_str (clear_device k'))]"
    if "find_ext4_superblock_by_dev (super_blocks k) (clear_device k') = None"
    using store_not_found(2)[OF assms k' that] .
  have aw: "printk k' = printk k @ [Requested_device (c_str (clear_device k')),
                                   Not_marked_read_only (c_str (clear_device k'))]"
    if "find_ext4_superblock_by_dev (super_blocks k) (clear_device k') = Some i"
      and "\<not> is_read_only (super_blocks k ! i)" for i
    using store_found(2)[OF assms k' that(1)] that(2)
    by (simp add: clear_read_only_def is_read_only_def Let_def)
  have cl: "printk k' = printk k @ [Requested_device (c_str (clear_device k')),
                                   Found_rdonly_clearing (c_str (clear_device k')), Completed]"
    if "find_ext4_superblock_by_dev (super_blocks k) (clear_device k') = Some i"
      and "is_read_only (super_blocks k ! i)" for i
    using store_found(2)[OF assms k' that(1)] that(2)
    by (simp add: clear_read_only_def is_read_only_def Let_def)
  show ?thesis
  proof (intro exI[of _ k'] conjI allI impI)
    show "clear_device_store k buf count = Some (sint count, k')" by (rule k')
    show "sint count = int (unat count)" if "unat count < 2 ^ 63"
      using that by (rule ssize_t_small)
    show "sint count = int (unat count) - 2 ^ 64" if "2 ^ 63 \<le> unat count"
      using that by (rule ssize_t_large)
  qed (use nf aw cl in blast)+
qed

theorem store_returns_count_witness:
  "length (clear_device (loaded [mounted ''ext4'' (part_of_disk ''sda1'') 1,
                                 mounted ''ext4'' (part_of_disk ''sdb1'') 0]))
     = sizeof_clear_device
   \<and> unat (5 :: size_t) < 2 ^ 63 \<and> unat (4 :: size_t) < 2 ^ 63
   \<and> clear_device_store
       (loaded [mounted ''ext4'' (part_of_disk ''sda1'') 1,
                mounted ''ext4'' (part_of_disk ''sdb1'') 0]) (''sda1'' @ [LF]) 5
     = Some (5, \<lparr>clear_device = ''sda1'' @ replicate 60 NUL,
                  super_blocks = [mounted ''ext4'' (part_of_disk ''sda1'') 0,
                                  mounted ''ext4'' (part_of_disk ''sdb1'') 0],
                  printk = [Requested_device ''sda1'', Found_rdonly_clearing ''sda1'',
                            Completed]\<rparr>)
   \<and> clear_device_store
       (loaded [mounted ''ext4'' (part_of_disk ''sda1'') 1,
                mounted ''ext4'' (part_of_disk ''sdb1'') 0]) ''sdb1'' 4
     = Some (4, \<lparr>clear_device = ''sdb1'' @ replicate 60 NUL,
                  super_blocks = [mounted ''ext4'' (part_of_disk ''sda1'') 1,
                                  mounted ''ext4'' (part_of_disk ''sdb1'') 0],
                  printk = [Requested_device ''sdb1'', Not_marked_read_only ''sdb1'']\<rparr>)
   \<and> clear_device_store (loaded []) (''sda1'' @ [LF]) 5
     = Some (5, \<lparr>clear_device = ''sda1'' @ replicate 60 NUL, super_blocks = [],
                  printk = [Requested_device ''sda1'', No_ext4_sb_found ''sda1'']\<rparr>)
   \<and> 2 ^ 63 \<le> unat (18446744073709551615 :: size_t)
   \<and> clear_device_store (loaded []) ''sda1'' 18446744073709551615
     = Some (int (unat (18446744073709551615 :: size_t)) - 2 ^ 64,
             \<lparr>clear_device = ''sda1'' @ replicate 60 NUL, super_blocks = [],
              printk = [Requested_device ''sda1'', No_ext4_sb_found ''sda1'']\<rparr>)"
proof -
  have small: "unat (5 :: size_t) < 2 ^ 63" "unat (4 :: size_t) < 2 ^ 63"
    and large: "2 ^ 63 \<le> unat (18446744073709551615 :: size_t)"
    and wrapped: "int (unat (18446744073709551615 :: size_t)) - 2 ^ 64 = - 1"
    by simp_all
  from store_returns_count[OF length_loaded,
      of "[mounted ''ext4'' (part_of_disk ''sda1'') 1,
           mounted ''ext4'' (part_of_disk ''sdb1'') 0]" "''sda1'' @ [LF]" 5]
    store_returns_count[OF length_loaded,
      of "[mounted ''ext4'' (part_of_disk ''sda1'') 1,
           mounted ''ext4'' (part_of_disk ''sdb1'') 0]" "''sdb1''" 4]
    store_returns_count[OF length_loaded, of "[]" "''sda1''" 18446744073709551615]
    length_loaded[of "[mounted ''ext4'' (part_of_disk ''sda1'') 1,
                       mounted ''ext4'' (part_of_disk ''sdb1'') 0]"]
    small large run_cleared run_already_writable run_not_found run_size_max[folded wrapped]
  show ?thesis by blast
qed

text \<open>
  Claim C8, as stated: the empty device name matches nothing in every mount set. The
  scanner compares it like any other name, so an ext4 super block whose disk name is
  empty is returned.
\<close>

theorem empty_name_counterexample:
  "find_ext4_superblock_by_dev [mounted ''ext4'' (part_of_disk '''') 1] '''' = Some 0"
  by (simp add: scanner_defs example_defs)

text \<open>
  Claim C8, amended: in every mount set where no ext4 super block with partition
  metadata has an empty disk name, the scanner returns not-found for the empty device
  name.
\<close>

theorem empty_name_not_found:
  assumes "\<forall>sb \<in> set sbs. filesystem_kind sb = Some ''ext4'' \<and> has_partition_info sb
             \<longrightarrow> backing_device_name sb \<noteq> Some ''''"
  shows "find_ext4_superblock_by_dev sbs '''' = None"
  using assms by (auto simp: find_None_iff_spec match_predicate_def c_str_def)

theorem empty_name_not_found_witness:
  "backing_device_name (mounted ''ext4'' (part_of_disk ''sda1'') 1) \<noteq> Some ''''
   \<and> filesystem_kind (mounted ''xfs'' (part_of_disk '''') 1) \<noteq> Some ''ext4''
   \<and> find_ext4_superblock_by_dev
       [mounted ''ext4'' (part_of_disk ''sda1'') 1, mounted ''xfs'' (part_of_disk '''') 1] '''' = None"
  using empty_name_not_found[of
      "[mounted ''ext4'' (part_of_disk ''sda1'') 1, mounted ''xfs'' (part_of_disk '''') 1]"]
  by (simp add: view_defs example_defs)

text \<open>
  Claim C9, as stated: with the match predicate "kind ext4, a backing device, disk name
  equal to the query", the first matching super block is returned and a match is never
  not-found. The source asks for partition metadata as well: an ext4 super block on a
  device without it, with the queried disk name, is passed over, so that the scanner
  returns not-found although it matches that predicate, and returns a later super
  block when one follows.
\<close>

theorem first_match_counterexample:
  "filesystem_kind (mounted ''ext4'' (unpartitioned ''sda1'') 1) = Some ''ext4''
   \<and> s_bdev (mounted ''ext4'' (unpartitioned ''sda1'') 1) \<noteq> None
   \<and> backing_device_name (mounted ''ext4'' (unpartitioned ''sda1'') 1) = Some ''sda1''
   \<and> find_ext4_superblock_by_dev [mounted ''ext4'' (unpartitioned ''sda1'') 1] ''sda1'' = None
   \<and> find_ext4_superblock_by_dev
       [mounted ''ext4'' (unpartitioned ''sda1'') 1, mounted ''ext4'' (part_of_disk ''sda1'') 1] ''sda1''
       = Some 1"
  by (simp add: scanner_defs view_defs example_defs)

text \<open>
  Claim C9, amended: with the match predicate "kind ext4, a backing device with partition
  metadata, disk name equal to the query", whenever some super block matches, the
  scanner returns the first one that does, in the order of the list, and so never
  not-found.
\<close>

theorem first_match_returned:
  assumes "j < length sbs" and "match_predicate (sbs ! j) devname"
  shows "\<exists>i \<le> j. find_ext4_superblock_by_dev sbs devname = Some i
           \<and> match_predicate (sbs ! i) devname
           \<and> (\<forall>l < i. \<not> match_predicate (sbs ! l) devname)"
proof -
  from assms have "sbs ! j \<in> set sbs" by simp
  with assms(2) have "find_ext4_superblock_by_dev sbs devname \<noteq> None"
    by (auto simp: find_None_iff_spec)
  then obtain i where i: "find_ext4_superblock_by_dev sbs devname = Some i" by blast
  then have props: "i < length sbs" "match_predicate (sbs ! i) devname"
    "\<forall>l < i. \<not> match_predicate (sbs ! l) devname"
    by (simp_all add: find_Some_iff_spec)
  have "i \<le> j"
  proof (rule ccontr)
    assume "\<not> i \<le> j"
    then have "j < i" by simp
    with props(3) assms(2) show False by blast
  qed
  with i props show ?thesis by blast
qed

theorem first_match_returned_witness:
  "2 < length [mounted ''xfs'' (part_of_disk ''sda1'') 1,
               mounted ''ext4'' (part_of_disk ''sda1'') 1,
               mounted ''ext4'' (part_of_disk ''sda1'') 0]
   \<and> match_predicate
       ([mounted ''xfs'' (part_of_disk ''sda1'') 1,
         mounted ''ext4'' (part_of_disk ''sda1'') 1,
         mounted ''ext4'' (part_of_disk ''sda1'') 0] ! 2) ''sda1''
   \<and> find_ext4_superblock_by_dev
       [mounted ''xfs'' (part_of_disk ''sda1'') 1,
        mounted ''ext4'' (part_of_disk ''sda1'') 1,
        mounted ''ext4'' (part_of_disk ''sda1'') 0] ''sda1'' = Some 1"
  using first_match_returned[of 2
      "[mounted ''xfs'' (part_of_disk ''sda1'') 1,
        mounted ''ext4'' (part_of_disk ''sda1'') 1,
        mounted ''ext4'' (part_of_disk ''sda1'') 0]" "''sda1''"]
  by (simp add: scanner_defs match_predicate_def view_defs example_defs)

text \<open>
  Claim C10. The scanner returns a super block only if its block device has partition
  metadata (\<^verbatim>\<open>bd_part\<close> and \<^verbatim>\<open>bd_part->info\<close> both set); a super block without it is
  never returned, also when it is ext4 and its disk name is the queried name (the
  witness has such a super block in front of one with the metadata).
\<close>

theorem partition_info_required:
  "(find_ext4_superblock_by_dev sbs devname = Some i \<longrightarrow> has_partition_info (sbs ! i))
   \<and> (i < length sbs \<and> \<not> has_partition_info (sbs ! i) \<longrightarrow>
        find_ext4_superblock_by_dev sbs devname \<noteq> Some i)"
  by (simp add: find_Some_iff_spec match_predicate_def)

theorem partition_info_required_witness:
  "find_ext4_superblock_by_dev
     [mounted ''ext4'' (unpartitioned ''sda1'') 1, mounted ''ext4'' (part_of_disk ''sda1'') 1] ''sda1''
     = Some 1
   \<and> has_partition_info
       ([mounted ''ext4'' (unpartitioned ''sda1'') 1, mounted ''ext4'' (part_of_disk ''sda1'') 1] ! 1)
   \<and> filesystem_kind (mounted ''ext4'' (unpartitioned ''sda1'') 1) = Some ''ext4''
   \<and> backing_device_name (mounted ''ext4'' (unpartitioned ''sda1'') 1) = Some ''sda1''
   \<and> \<not> has_partition_info
       ([mounted ''ext4'' (unpartitioned ''sda1'') 1, mounted ''ext4'' (part_of_disk ''sda1'') 1] ! 0)
   \<and> find_ext4_superblock_by_dev
       [mounted ''ext4'' (unpartitioned ''sda1'') 1, mounted ''ext4'' (part_of_disk ''sda1'') 1] ''sda1''
       \<noteq> Some 0"
  using partition_info_required[of
      "[mounted ''ext4'' (unpartitioned ''sda1'') 1, mounted ''ext4'' (part_of_disk ''sda1'') 1]"
      "''sda1''" 1]
    partition_info_required[of
      "[mounted ''ext4'' (unpartitioned ''sda1'') 1, mounted ''ext4'' (part_of_disk ''sda1'') 1]"
      "''sda1''" 0]
  by (simp add: scanner_defs view_defs example_defs)

end
